theory Spec2Isabelle
  imports Main
begin

section \<open>Go values carried by a variables mapping\<close>

text \<open>
  The variables of a request have the Go type \<^verbatim>\<open>map[string]interface{}\<close>. A value of
  type \<^verbatim>\<open>interface{}\<close> is the nil interface or a value of some dynamic type. The
  sanitizer tells three kinds apart: the nil interface, a value whose dynamic type is
  \<^verbatim>\<open>map[string]interface{}\<close> (which may be the nil map), and everything else. Scalars,
  slices and pointers stand for "everything else". A slice is the simplest nested
  structure that is not a mapping. A pointer is \<open>GoPointer (Some v)\<close> when it points to
  \<open>v\<close> and \<open>GoPointer None\<close> when it is the nil pointer of its type: stored in an
  interface, a nil pointer is a value with a dynamic type, and \<^verbatim>\<open>value != nil\<close> holds
  of it.

  A Go map is kept as the list of its entries in the order \<^verbatim>\<open>range\<close> visits them (Go
  leaves that order open, so nothing below depends on it), each key once. \<open>None\<close> is the
  nil map.
\<close>

datatype val =
    GoNil
  | GoBool bool
  | GoInt int
  | GoString string
  | GoSlice "val list"
  | GoPointer "val option"
  | GoMap "(string \<times> val) list option"

type_synonym entries = "(string \<times> val) list"
type_synonym gomap = "entries option"

text \<open>\<^verbatim>\<open>for key, value := range m\<close>: a nil map has no entries to visit.\<close>

fun map_range :: "gomap \<Rightarrow> entries" where
  "map_range None = []"
| "map_range (Some es) = es"

text \<open>\<^verbatim>\<open>m[key] = v\<close> on a non-nil map: replace the entry of the key, or add one.\<close>

fun map_assign :: "string \<Rightarrow> val \<Rightarrow> entries \<Rightarrow> entries" where
  "map_assign key v [] = [(key, v)]"
| "map_assign key v ((k, w) # es) =
     (if k = key then (key, v) # es else (k, w) # map_assign key v es)"

text \<open>\<^verbatim>\<open>v, ok := m[key]\<close>: reading a nil map finds nothing.\<close>

definition map_index :: "gomap \<Rightarrow> string \<Rightarrow> val option" where
  "map_index m key = map_of (map_range m) key"

text \<open>A Go map holds every key once.\<close>

definition go_map :: "gomap \<Rightarrow> bool" where
  "go_map m = distinct (map fst (map_range m))"

lemma size_map_range: "size_list f (map_range m) \<le> size_option (size_list f) m"
  by (cases m) simp_all

section \<open>The variable sanitizer\<close>

text \<open>
  \<^verbatim>\<open>removeNils\<close> of client.go. \<open>removeNils_range\<close> is its loop: the entries still to
  visit and the map \<^verbatim>\<open>withoutNils\<close> built so far. The type assertion
  \<^verbatim>\<open>value.(map[string]interface{})\<close> succeeds exactly on \<open>GoMap\<close>, also for the nil
  map; \<^verbatim>\<open>value != nil\<close> fails exactly on \<open>GoNil\<close>.
\<close>

function removeNils :: "gomap \<Rightarrow> gomap"
  and removeNils_range :: "entries \<Rightarrow> entries \<Rightarrow> entries" where
  "removeNils initialMap = Some (removeNils_range (map_range initialMap) [])"
| "removeNils_range [] withoutNils = withoutNils"
| "removeNils_range ((key, v) # rest) withoutNils =
     (case v of
        GoMap m \<Rightarrow> removeNils_range rest (map_assign key (GoMap (removeNils m)) withoutNils)
      | GoNil \<Rightarrow> removeNils_range rest withoutNils
      | _ \<Rightarrow> removeNils_range rest (map_assign key v withoutNils))"
  by pat_completeness auto
termination
  by (relation "measure (\<lambda>x. case x of
         Inl m \<Rightarrow> Suc (size_option (size_list (size_prod (\<lambda>_. 0) size)) m)
       | Inr (es, _) \<Rightarrow> size_list (size_prod (\<lambda>_. 0) size) es)")
     (auto simp: less_Suc_eq_le size_map_range)

text \<open>
  \<open>has_nil v\<close>: a nil occurs somewhere in \<open>v\<close>, at any depth: the nil interface or a nil
  pointer, as \<open>v\<close> itself, as a value of a mapping, as an element of a slice or behind a
  pointer. Each of them is written \<^verbatim>\<open>null\<close> when the variables are serialized.
\<close>

function has_nil :: "val \<Rightarrow> bool"
  and has_nil_list :: "val list \<Rightarrow> bool"
  and has_nil_entries :: "entries \<Rightarrow> bool" where
  "has_nil GoNil = True"
| "has_nil (GoBool b) = False"
| "has_nil (GoInt i) = False"
| "has_nil (GoString s) = False"
| "has_nil (GoSlice xs) = has_nil_list xs"
| "has_nil (GoPointer None) = True"
| "has_nil (GoPointer (Some v)) = has_nil v"
| "has_nil (GoMap m) = has_nil_entries (map_range m)"
| "has_nil_list [] = False"
| "has_nil_list (x # xs) = (has_nil x \<or> has_nil_list xs)"
| "has_nil_entries [] = False"
| "has_nil_entries ((key, v) # es) = (has_nil v \<or> has_nil_entries es)"
  by pat_completeness auto
termination
  by (relation "measure (\<lambda>x. case x of
         Inl v \<Rightarrow> size v
       | Inr (Inl xs) \<Rightarrow> size_list size xs
       | Inr (Inr es) \<Rightarrow> size_list (size_prod (\<lambda>_. 0) size) es)")
     (auto simp: less_Suc_eq_le size_map_range)

text \<open>
  \<open>nil_key v\<close>: some mapping reached from \<open>v\<close> through values of mappings only has a key
  whose value is the nil interface.
\<close>

function nil_key :: "val \<Rightarrow> bool"
  and nil_key_entries :: "entries \<Rightarrow> bool" where
  "nil_key v = (case v of GoMap m \<Rightarrow> nil_key_entries (map_range m) | _ \<Rightarrow> False)"
| "nil_key_entries [] = False"
| "nil_key_entries ((key, v) # es) = (v = GoNil \<or> nil_key v \<or> nil_key_entries es)"
  by pat_completeness auto
termination
  by (relation "measure (\<lambda>x. case x of
         Inl v \<Rightarrow> size v
       | Inr es \<Rightarrow> size_list (size_prod (\<lambda>_. 0) size) es)")
     (auto simp: less_Suc_eq_le size_map_range)

text \<open>
  \<open>sanitized es\<close>: the shape of every map the sanitizer builds. Each key occurs once, no
  value is the nil interface, and every value that is a mapping is a non-nil map of the
  same shape.
\<close>

function sanitized_val :: "val \<Rightarrow> bool"
  and sanitized :: "entries \<Rightarrow> bool" where
  "sanitized_val v =
     (case v of
        GoNil \<Rightarrow> False
      | GoMap None \<Rightarrow> False
      | GoMap (Some es) \<Rightarrow> sanitized es
      | _ \<Rightarrow> True)"
| "sanitized [] = True"
| "sanitized ((key, v) # es) = (key \<notin> fst ` set es \<and> sanitized_val v \<and> sanitized es)"
  by pat_completeness auto
termination
  by (relation "measure (\<lambda>x. case x of
         Inl v \<Rightarrow> size v
       | Inr es \<Rightarrow> size_list (size_prod (\<lambda>_. 0) size) es)")
     (auto simp: less_Suc_eq_le)

declare nil_key.simps [simp del] sanitized_val.simps [simp del]


section \<open>Requests\<close>

text \<open>
  \<^verbatim>\<open>Request\<close> of client.go, and the parts of \<^verbatim>\<open>http.Request\<close> and \<^verbatim>\<open>http.Response\<close> the
  client touches. A request option receives the request by pointer and may change it in
  place: here it maps the request to the changed request. Reading the body of a response
  can fail (\<^verbatim>\<open>ioutil.ReadAll\<close>); \<open>ReadAll_Body\<close> is the outcome of that read, \<open>Inl\<close> the
  error.
\<close>

record Request =
  Query :: string
  Variables :: gomap
  OperationName :: string

record http_Request =
  Method :: string
  URL :: string
  Header :: "string \<rightharpoonup> string list"
  Body :: string

record http_Response =
  StatusCode :: int
  ReadAll_Body :: "string + string"

type_synonym HTTPRequestOption = "http_Request \<Rightarrow> http_Request"

text \<open>
  \<^verbatim>\<open>Client\<close> of client.go. The field \<^verbatim>\<open>Client *http.Client\<close> is used through its method
  \<^verbatim>\<open>Do\<close> only, so the record holds that method: it sends a request and returns the
  response or the transport's error.
\<close>

record Client =
  Client_Do :: "http_Request \<Rightarrow> string + http_Response"
  BaseURL :: string
  HTTPRequestOptions :: "HTTPRequestOption list"

section \<open>Errors\<close>

text \<open>
  \<^verbatim>\<open>HTTPError\<close> and \<^verbatim>\<open>ErrorResponse\<close> of client.go. The two fields of an
  \<^verbatim>\<open>ErrorResponse\<close> are pointers: \<open>None\<close> is the nil pointer. The elements of a
  \<^verbatim>\<open>gqlerror.List\<close> are of a type of the gqlparser library, which the client only moves
  around: the type parameter \<open>'e\<close>. A nil slice and an empty slice are both the empty
  list; the client never tells them apart.
\<close>

record HTTPError =
  Code :: int
  Message :: string

record 'e ErrorResponse =
  NetworkError :: "HTTPError option"
  GqlErrors :: "'e list option"

definition HasErrors :: "'e ErrorResponse \<Rightarrow> bool" where
  "HasErrors er = (NetworkError er \<noteq> None \<or> GqlErrors er \<noteq> None)"

text \<open>
  A Go \<^verbatim>\<open>error\<close> returned by the client has one of three dynamic types: an error built
  by \<^verbatim>\<open>xerrors.Errorf\<close> (kept as its message), a \<^verbatim>\<open>*GqlErrorList\<close>, or an
  \<^verbatim>\<open>*ErrorResponse\<close>. The type assertion \<^verbatim>\<open>err.(*GqlErrorList)\<close> is a case
  distinction on the constructor. A function that returns \<^verbatim>\<open>error\<close> returns
  \<open>'e error option\<close>, \<open>None\<close> for nil.
\<close>

datatype 'e error =
    PlainError string
  | GqlErrorListError "'e list"
  | ErrorResponseError "'e ErrorResponse"

section \<open>What the client calls\<close>

text \<open>
  \<^verbatim>\<open>response\<close> of client.go: both fields are of type \<^verbatim>\<open>json.RawMessage\<close>, a byte slice;
  \<open>None\<close> is the nil slice.
\<close>

type_synonym RawMessage = "string option"

record response =
  Data :: RawMessage
  Errors :: RawMessage

fun len :: "RawMessage \<Rightarrow> nat" where
  "len None = 0"
| "len (Some bytes) = length bytes"

text \<open>
  The client calls into the Go standard library and into the package graphqljson; their
  code is not part of client.go. They are parameters of the model, so every theorem
  about the client below holds whatever these functions do:
  \<^item> \<open>json_Marshal\<close>: \<^verbatim>\<open>json.Marshal\<close> of a \<^verbatim>\<open>Request\<close>, the bytes or the error;
  \<^item> \<open>http_NewRequestWithContext\<close>: method, URL and body to a request, or the error;
  \<^item> \<open>json_Unmarshal_response\<close>: \<^verbatim>\<open>json.Unmarshal(data, &resp)\<close> for a \<^verbatim>\<open>response\<close>;
  \<^item> \<open>json_Unmarshal_GqlErrorList\<close>: \<^verbatim>\<open>json.Unmarshal(data, errors)\<close> for a
    \<^verbatim>\<open>*GqlErrorList\<close>, the decoded list or the error;
  \<^item> \<open>graphqljson_UnmarshalData\<close>: \<^verbatim>\<open>graphqljson.UnmarshalData(resp.Data, res)\<close>, which
    writes into the caller's target \<open>'t\<close>: it returns the target as it leaves it, and
    the error if any.
  Errors of these functions are kept as their messages.
\<close>

record ('e, 't) externals =
  json_Marshal :: "Request \<Rightarrow> string + string"
  http_NewRequestWithContext :: "string \<Rightarrow> string \<Rightarrow> string \<Rightarrow> string + http_Request"
  json_Unmarshal_response :: "string \<Rightarrow> string + response"
  json_Unmarshal_GqlErrorList :: "string \<Rightarrow> string + 'e list"
  graphqljson_UnmarshalData :: "RawMessage \<Rightarrow> 't \<Rightarrow> 't \<times> string option"

section \<open>The request builder\<close>

text \<open>
  The two loops of \<^verbatim>\<open>newRequest\<close> over request options: each option is applied to the
  request the earlier ones left.
\<close>

fun apply_options :: "HTTPRequestOption list \<Rightarrow> http_Request \<Rightarrow> http_Request" where
  "apply_options [] req = req"
| "apply_options (httpRequestOption # rest) req = apply_options rest (httpRequestOption req)"

text \<open>\<^verbatim>\<open>newRequest\<close> of client.go. The context is passed on to the transport untouched.\<close>

definition newRequest ::
  "('e, 't) externals \<Rightarrow> Client \<Rightarrow> string \<Rightarrow> gomap \<Rightarrow> HTTPRequestOption list
     \<Rightarrow> string + http_Request" where
  "newRequest lib c query vars httpRequestOptions =
     (case json_Marshal lib
             \<lparr>Query = query, Variables = removeNils vars, OperationName = []\<rparr> of
        Inl err \<Rightarrow> Inl (''encode: '' @ err)
      | Inr requestBody \<Rightarrow>
          (case http_NewRequestWithContext lib ''POST'' (BaseURL c) requestBody of
             Inl err \<Rightarrow> Inl (''create request struct failed: '' @ err)
           | Inr req \<Rightarrow>
               Inr (apply_options httpRequestOptions
                     (apply_options (HTTPRequestOptions c) req))))"

section \<open>The response interpreter\<close>

text \<open>
  \<^verbatim>\<open>unmarshal\<close> of client.go. It returns the caller's target next to the error: the
  target is written by \<open>graphqljson_UnmarshalData\<close> only.
\<close>

definition unmarshal :: "('e, 't) externals \<Rightarrow> string \<Rightarrow> 't \<Rightarrow> 't \<times> 'e error option" where
  "unmarshal lib data res =
     (case json_Unmarshal_response lib data of
        Inl err \<Rightarrow> (res, Some (PlainError (''failed to decode data '' @ data @ '': '' @ err)))
      | Inr resp \<Rightarrow>
          if Errors resp \<noteq> None \<and> len (Errors resp) > 0 then
            (case json_Unmarshal_GqlErrorList lib data of
               Inl e \<Rightarrow>
                 (res, Some (PlainError
                    (''faild to parse graphql errors. Response content '' @ data
                       @ '' - '' @ e @ '' '')))
             | Inr errors \<Rightarrow> (res, Some (GqlErrorListError errors)))
          else
            (case graphqljson_UnmarshalData lib (Data resp) res of
               (res', Some err) \<Rightarrow>
                 (res', Some (PlainError
                    (''failed to decode data into response '' @ data @ '': '' @ err)))
             | (res', None) \<Rightarrow> (res', None)))"

text \<open>
  \<^verbatim>\<open>parseResponse\<close> of client.go. \<open>return_errResponse\<close> is its last statement: the
  \<^verbatim>\<open>ErrorResponse\<close> when it has errors, nil otherwise.
\<close>

definition return_errResponse :: "'t \<Rightarrow> 'e ErrorResponse \<Rightarrow> 't \<times> 'e error option" where
  "return_errResponse result errResponse =
     (if HasErrors errResponse then (result, Some (ErrorResponseError errResponse))
      else (result, None))"

definition parseResponse ::
  "('e, 't) externals \<Rightarrow> string \<Rightarrow> int \<Rightarrow> 't \<Rightarrow> 't \<times> 'e error option" where
  "parseResponse lib body httpCode result =
     (let isKOCode = (httpCode < 200 \<or> 299 < httpCode);
          errResponse =
            \<lparr>NetworkError =
               (if isKOCode
                then Some \<lparr>Code = httpCode, Message = ''Response body '' @ body\<rparr>
                else None),
             GqlErrors = None\<rparr>
      in case unmarshal lib body result of
           (result', Some err) \<Rightarrow>
             (case err of
                GqlErrorListError errs \<Rightarrow>
                  return_errResponse result' (errResponse\<lparr>GqlErrors := Some errs\<rparr>)
              | _ \<Rightarrow>
                  if \<not> isKOCode then (result', Some err)
                  else return_errResponse result' errResponse)
         | (result', None) \<Rightarrow> return_errResponse result' errResponse)"

section \<open>Post\<close>

text \<open>\<^verbatim>\<open>req.Header.Set(key, value)\<close>: the key gets this one value.\<close>

definition Header_Set :: "string \<Rightarrow> string \<Rightarrow> http_Request \<Rightarrow> http_Request" where
  "Header_Set key v req = req\<lparr>Header := (Header req)(key \<mapsto> [v])\<rparr>"

text \<open>\<^verbatim>\<open>Post\<close> of client.go. Closing the body of the response leaves no trace here.\<close>

definition Post ::
  "('e, 't) externals \<Rightarrow> Client \<Rightarrow> string \<Rightarrow> 't \<Rightarrow> gomap \<Rightarrow> HTTPRequestOption list
     \<Rightarrow> 't \<times> 'e error option" where
  "Post lib c query respData vars httpRequestOptions =
     (case newRequest lib c query vars httpRequestOptions of
        Inl err \<Rightarrow> (respData, Some (PlainError (''don't create request: '' @ err)))
      | Inr req \<Rightarrow>
          (case Client_Do c
                  (Header_Set ''Accept'' ''application/json; charset=utf-8''
                    (Header_Set ''Content-Type'' ''application/json; charset=utf-8'' req)) of
             Inl err \<Rightarrow> (respData, Some (PlainError (''request failed: '' @ err)))
           | Inr resp \<Rightarrow>
               (case ReadAll_Body resp of
                  Inl err \<Rightarrow>
                    (respData, Some (PlainError (''failed to read response body: '' @ err)))
                | Inr body \<Rightarrow> parseResponse lib body (StatusCode resp) respData)))"

section \<open>A reader of JSON documents\<close>

text \<open>
  To run the client on the bodies the specification names, the three decoders need
  values. This section gives them for documents written in ASCII, after the documented
  behaviour of \<^verbatim>\<open>encoding/json\<close>:
  \<^item> the whole input must be one JSON value, white space around it allowed;
  \<^item> a JSON object decodes into a struct field by field, a key matching a field's name
    exactly or up to the case of its letters, a later occurrence of a key replacing an
    earlier one, keys of no field skipped; JSON null for the struct changes nothing;
  \<^item> a field of type \<^verbatim>\<open>json.RawMessage\<close> receives the bytes of the member's value as
    they stand in the input, also when the value is the literal \<^verbatim>\<open>null\<close>: the type
    implements \<^verbatim>\<open>Unmarshaler\<close>, \<^verbatim>\<open>Unmarshal\<close> calls \<^verbatim>\<open>UnmarshalJSON\<close> of such a
    value "including when the input is a JSON null", and \<^verbatim>\<open>RawMessage.UnmarshalJSON\<close>
    sets the message to a copy of the data it is given;
  \<^item> a slice of pointers to structs decodes from JSON null (the nil slice) or from an
    array whose elements are null (a nil pointer) or objects; any other value is an
    error.
  Outside this section's reach: the \<^verbatim>\<open>\u\<close> escapes of strings (read as a syntax error
  here), the text of the library's error messages (a fixed text stands for each kind),
  and the members of an error entry other than \<^verbatim>\<open>message\<close> (skipped here). No theorem
  about the client in general rests on this section; it serves the worked examples.

  The parser counts down a fuel that starts at twice the length of the input. That is
  enough: with more fuel the parser returns the same (\<open>json_parse_fuel\<close> below), so
  \<open>None\<close> is a syntax error and never a lack of fuel.
\<close>

datatype json =
    JNull
  | JBool bool
  | JNumber string
  | JString string
  | JArray "json list"
  | JObject "(string \<times> string \<times> json) list"

text \<open>A member of an object is kept as its key, the bytes of its value and the value.\<close>

type_synonym members = "(string \<times> string \<times> json) list"

definition is_space :: "char \<Rightarrow> bool" where
  "is_space c = (c \<in> set [CHR 0x20, CHR 0x09, CHR 0x0A, CHR 0x0D])"

definition skip_space :: "string \<Rightarrow> string" where
  "skip_space s = dropWhile is_space s"

definition is_digit :: "char \<Rightarrow> bool" where
  "is_digit c = (c \<in> set ''0123456789'')"

text \<open>The character after a backslash in a string (\<open>CHR 0x22\<close> is the double quote).\<close>

definition unescape :: "char \<Rightarrow> char option" where
  "unescape e =
     (if e = CHR 0x22 then Some (CHR 0x22)
      else if e = CHR 0x5C then Some (CHR 0x5C)
      else if e = CHR ''/'' then Some (CHR ''/'')
      else if e = CHR ''b'' then Some (CHR 0x08)
      else if e = CHR ''f'' then Some (CHR 0x0C)
      else if e = CHR ''n'' then Some (CHR 0x0A)
      else if e = CHR ''r'' then Some (CHR 0x0D)
      else if e = CHR ''t'' then Some (CHR 0x09)
      else None)"

text \<open>A string, read from behind its opening quote: its value and what follows it.\<close>

fun scan_string :: "string \<Rightarrow> (string \<times> string) option" where
  "scan_string [] = None"
| "scan_string [c] = (if c = CHR 0x22 then Some ([], []) else None)"
| "scan_string (c # e # cs) =
     (if c = CHR 0x22 then Some ([], e # cs)
      else if c = CHR 0x5C then
        (case unescape e of
           None \<Rightarrow> None
         | Some d \<Rightarrow> map_option (\<lambda>(str, rest). (d # str, rest)) (scan_string cs))
      else if (of_char c :: nat) < 0x20 then None
      else map_option (\<lambda>(str, rest). (c # str, rest)) (scan_string (e # cs)))"

definition scan_digits :: "string \<Rightarrow> (string \<times> string) option" where
  "scan_digits s =
     (if takeWhile is_digit s = [] then None
      else Some (takeWhile is_digit s, dropWhile is_digit s))"

definition scan_int_part :: "string \<Rightarrow> (string \<times> string) option" where
  "scan_int_part s =
     (case s of
        [] \<Rightarrow> None
      | c # r \<Rightarrow> if c = CHR ''0'' then Some (''0'', r) else scan_digits s)"

definition scan_frac :: "string \<Rightarrow> (string \<times> string) option" where
  "scan_frac s =
     (case s of
        [] \<Rightarrow> Some ([], s)
      | c # r \<Rightarrow>
          if c = CHR ''.'' then map_option (\<lambda>(ds, rest). (c # ds, rest)) (scan_digits r)
          else Some ([], s))"

definition scan_exp :: "string \<Rightarrow> (string \<times> string) option" where
  "scan_exp s =
     (case s of
        [] \<Rightarrow> Some ([], s)
      | c # r \<Rightarrow>
          if c = CHR ''e'' \<or> c = CHR ''E'' then
            (case r of
               [] \<Rightarrow> None
             | g # r' \<Rightarrow>
                 if g = CHR ''+'' \<or> g = CHR ''-''
                 then map_option (\<lambda>(ds, rest). (c # g # ds, rest)) (scan_digits r')
                 else map_option (\<lambda>(ds, rest). (c # ds, rest)) (scan_digits r))
          else Some ([], s))"

text \<open>A number: its lexeme and what follows it.\<close>

definition scan_number :: "string \<Rightarrow> (string \<times> string) option" where
  "scan_number s =
     (let (sign, s1) =
            (case s of
               [] \<Rightarrow> ([], s)
             | c # r \<Rightarrow> if c = CHR ''-'' then ([c], r) else ([], s))
      in case scan_int_part s1 of
           None \<Rightarrow> None
         | Some (ip, s2) \<Rightarrow>
             (case scan_frac s2 of
                None \<Rightarrow> None
              | Some (fp, s3) \<Rightarrow>
                  (case scan_exp s3 of
                     None \<Rightarrow> None
                   | Some (ep, s4) \<Rightarrow> Some (sign @ ip @ fp @ ep, s4))))"

text \<open>
  A value, the elements of an array after its opening bracket, and the members of an
  object after its opening brace; each from the first character that is not white
  space, each returning what follows.
\<close>

fun parse_value :: "nat \<Rightarrow> string \<Rightarrow> (json \<times> string) option"
  and parse_elements :: "nat \<Rightarrow> string \<Rightarrow> (json list \<times> string) option"
  and parse_members :: "nat \<Rightarrow> string \<Rightarrow> (members \<times> string) option" where
  "parse_value 0 s = None"
| "parse_value (Suc n) s =
     (case s of
        [] \<Rightarrow> None
      | c # r \<Rightarrow>
          if c = CHR ''{'' then
            (case skip_space r of
               [] \<Rightarrow> None
             | c' # r' \<Rightarrow>
                 if c' = CHR ''}'' then Some (JObject [], r')
                 else map_option (\<lambda>(ms, rest). (JObject ms, rest)) (parse_members n (c' # r')))
          else if c = CHR ''['' then
            (case skip_space r of
               [] \<Rightarrow> None
             | c' # r' \<Rightarrow>
                 if c' = CHR '']'' then Some (JArray [], r')
                 else map_option (\<lambda>(vs, rest). (JArray vs, rest)) (parse_elements n (c' # r')))
          else if c = CHR 0x22 then
            map_option (\<lambda>(str, rest). (JString str, rest)) (scan_string r)
          else if take 4 s = ''null'' then Some (JNull, drop 4 s)
          else if take 4 s = ''true'' then Some (JBool True, drop 4 s)
          else if take 5 s = ''false'' then Some (JBool False, drop 5 s)
          else map_option (\<lambda>(lexeme, rest). (JNumber lexeme, rest)) (scan_number s))"
| "parse_elements 0 s = None"
| "parse_elements (Suc n) s =
     (case parse_value n s of
        None \<Rightarrow> None
      | Some (v, r) \<Rightarrow>
          (case skip_space r of
             [] \<Rightarrow> None
           | c # r' \<Rightarrow>
               if c = CHR '','' then
                 map_option (\<lambda>(vs, rest). (v # vs, rest)) (parse_elements n (skip_space r'))
               else if c = CHR '']'' then Some ([v], r')
               else None))"
| "parse_members 0 s = None"
| "parse_members (Suc n) s =
     (case s of
        [] \<Rightarrow> None
      | c # r \<Rightarrow>
          if c \<noteq> CHR 0x22 then None
          else
            (case scan_string r of
               None \<Rightarrow> None
             | Some (key, r1) \<Rightarrow>
                 (case skip_space r1 of
                    [] \<Rightarrow> None
                  | c1 # r2 \<Rightarrow>
                      if c1 \<noteq> CHR '':'' then None
                      else
                        (case parse_value n (skip_space r2) of
                           None \<Rightarrow> None
                         | Some (v, r4) \<Rightarrow>
                             (let raw = take (length (skip_space r2) - length r4) (skip_space r2)
                              in case skip_space r4 of
                                   [] \<Rightarrow> None
                                 | c5 # r5 \<Rightarrow>
                                     if c5 = CHR '','' then
                                       map_option (\<lambda>(ms, rest). ((key, raw, v) # ms, rest))
                                         (parse_members n (skip_space r5))
                                     else if c5 = CHR ''}'' then Some ([(key, raw, v)], r5)
                                     else None)))))"

definition json_parse :: "string \<Rightarrow> json option" where
  "json_parse s =
     (case parse_value (2 * length s) (skip_space s) of
        None \<Rightarrow> None
      | Some (v, rest) \<Rightarrow> if skip_space rest = [] then Some v else None)"

text \<open>A key with its capital letters made small, for matching field names.\<close>

definition fold_ascii :: "string \<Rightarrow> string" where
  "fold_ascii s =
     map (\<lambda>c. if 0x41 \<le> (of_char c :: nat) \<and> (of_char c :: nat) \<le> 0x5A
              then char_of (of_char c + (0x20 :: nat)) else c) s"

subsection \<open>Decoding into a response\<close>

fun response_fields :: "members \<Rightarrow> response \<Rightarrow> response" where
  "response_fields [] resp = resp"
| "response_fields ((key, raw, v) # ms) resp =
     response_fields ms
       (if fold_ascii key = ''data'' then resp\<lparr>Data := Some raw\<rparr>
        else if fold_ascii key = ''errors'' then resp\<lparr>Errors := Some raw\<rparr>
        else resp)"

definition go_json_Unmarshal_response :: "string \<Rightarrow> string + response" where
  "go_json_Unmarshal_response data =
     (case json_parse data of
        None \<Rightarrow> Inl ''json: syntax error''
      | Some (JObject ms) \<Rightarrow> Inr (response_fields ms \<lparr>Data = None, Errors = None\<rparr>)
      | Some JNull \<Rightarrow> Inr \<lparr>Data = None, Errors = None\<rparr>
      | Some _ \<Rightarrow> Inl ''json: cannot unmarshal into Go value of type client.response'')"

subsection \<open>Decoding into a list of errors\<close>

text \<open>
  An entry of a \<^verbatim>\<open>gqlerror.List\<close>, as far as the examples need it: its message. The
  list holds pointers, \<open>None\<close> the nil pointer.
\<close>

record gqlerror =
  gqlerror_Message :: string

fun gqlerror_fields :: "members \<Rightarrow> gqlerror \<Rightarrow> string + gqlerror" where
  "gqlerror_fields [] e = Inr e"
| "gqlerror_fields ((key, raw, v) # ms) e =
     (if fold_ascii key = ''message'' then
        (case v of
           JString s \<Rightarrow> gqlerror_fields ms (e\<lparr>gqlerror_Message := s\<rparr>)
         | JNull \<Rightarrow> gqlerror_fields ms e
         | _ \<Rightarrow> Inl ''json: cannot unmarshal into Go struct field Error.message of type string'')
      else gqlerror_fields ms e)"

fun gqlerror_pointer :: "json \<Rightarrow> string + gqlerror option" where
  "gqlerror_pointer JNull = Inr None"
| "gqlerror_pointer (JObject ms) =
     (case gqlerror_fields ms \<lparr>gqlerror_Message = []\<rparr> of
        Inl err \<Rightarrow> Inl err
      | Inr e \<Rightarrow> Inr (Some e))"
| "gqlerror_pointer v = Inl ''json: cannot unmarshal into Go value of type gqlerror.Error''"

fun gqlerror_pointers :: "json list \<Rightarrow> string + gqlerror option list" where
  "gqlerror_pointers [] = Inr []"
| "gqlerror_pointers (v # vs) =
     (case gqlerror_pointer v of
        Inl err \<Rightarrow> Inl err
      | Inr e \<Rightarrow>
          (case gqlerror_pointers vs of
             Inl err \<Rightarrow> Inl err
           | Inr es \<Rightarrow> Inr (e # es)))"

fun gqlerror_List :: "json \<Rightarrow> string + gqlerror option list" where
  "gqlerror_List JNull = Inr []"
| "gqlerror_List (JArray vs) = gqlerror_pointers vs"
| "gqlerror_List v =
     Inl ''json: cannot unmarshal into Go struct field GqlErrorList.errors of type gqlerror.List''"

fun GqlErrorList_fields :: "members \<Rightarrow> gqlerror option list \<Rightarrow> string + gqlerror option list" where
  "GqlErrorList_fields [] errors = Inr errors"
| "GqlErrorList_fields ((key, raw, v) # ms) errors =
     (if fold_ascii key = ''errors'' then
        (case gqlerror_List v of
           Inl err \<Rightarrow> Inl err
         | Inr errors' \<Rightarrow> GqlErrorList_fields ms errors')
      else GqlErrorList_fields ms errors)"

definition go_json_Unmarshal_GqlErrorList :: "string \<Rightarrow> string + gqlerror option list" where
  "go_json_Unmarshal_GqlErrorList data =
     (case json_parse data of
        None \<Rightarrow> Inl ''json: syntax error''
      | Some (JObject ms) \<Rightarrow> GqlErrorList_fields ms []
      | Some JNull \<Rightarrow> Inr []
      | Some _ \<Rightarrow> Inl ''json: cannot unmarshal into Go value of type client.GqlErrorList'')"

subsection \<open>Decoding data into a target\<close>

text \<open>
  Modelled from the spec: \<^verbatim>\<open>graphqljson.UnmarshalData\<close>, whose package is not among the
  files verified here. The specification says of it that it decodes the envelope's data field into
  the caller-supplied target shape and that a shape mismatch is a failure. The target
  shape of the examples is the one the specification uses, a single integer field
  \<^verbatim>\<open>x\<close>: data that is an object whose member \<^verbatim>\<open>x\<close> is an integer fills the field, any
  other data (none at all, not an object, a member \<^verbatim>\<open>x\<close> of another kind) is a
  mismatch.
\<close>

record target_x =
  field_x :: int

definition digit_value :: "char \<Rightarrow> nat" where
  "digit_value c = of_char c - of_char CHR ''0''"

definition read_integer :: "string \<Rightarrow> int option" where
  "read_integer lexeme =
     (case lexeme of
        [] \<Rightarrow> None
      | c # ds \<Rightarrow>
          if c = CHR ''-'' then
            (if ds \<noteq> [] \<and> list_all is_digit ds
             then Some (- int (foldl (\<lambda>n d. 10 * n + digit_value d) 0 ds))
             else None)
          else if list_all is_digit lexeme
            then Some (int (foldl (\<lambda>n d. 10 * n + digit_value d) 0 lexeme))
            else None)"

fun target_x_fields :: "members \<Rightarrow> target_x \<Rightarrow> target_x \<times> string option" where
  "target_x_fields [] t = (t, None)"
| "target_x_fields ((key, raw, v) # ms) t =
     (if key = ''x'' then
        (case v of
           JNumber lexeme \<Rightarrow>
             (case read_integer lexeme of
                Some i \<Rightarrow> target_x_fields ms (t\<lparr>field_x := i\<rparr>)
              | None \<Rightarrow> (t, Some ''x: not an integer''))
         | _ \<Rightarrow> (t, Some ''x: not a number''))
      else target_x_fields ms t)"

definition UnmarshalData_x :: "RawMessage \<Rightarrow> target_x \<Rightarrow> target_x \<times> string option" where
  "UnmarshalData_x data t =
     (case data of
        None \<Rightarrow> (t, Some ''no data'')
      | Some bytes \<Rightarrow>
          (case json_parse bytes of
             Some (JObject ms) \<Rightarrow> target_x_fields ms t
           | _ \<Rightarrow> (t, Some ''data is not an object'')))"

subsection \<open>The externals of the examples\<close>

text \<open>
  The examples build no request of interest: \<open>example_Marshal\<close> writes the query of a
  request whose variables are empty and whose query needs no escaping, as
  \<^verbatim>\<open>json.Marshal\<close> would, and \<open>example_NewRequest\<close> is \<^verbatim>\<open>http.NewRequestWithContext\<close> on
  a method and a URL it accepts.
\<close>

definition example_Marshal :: "Request \<Rightarrow> string + string" where
  \<open>example_Marshal r = Inr (''{"query":"'' @ Query r @ ''"}'')\<close>

definition example_NewRequest :: "string \<Rightarrow> string \<Rightarrow> string \<Rightarrow> string + http_Request" where
  "example_NewRequest method url body =
     Inr \<lparr>Method = method, URL = url, Header = Map.empty, Body = body\<rparr>"

definition example_lib :: "(gqlerror option, target_x) externals" where
  "example_lib =
     \<lparr>json_Marshal = example_Marshal,
      http_NewRequestWithContext = example_NewRequest,
      json_Unmarshal_response = go_json_Unmarshal_response,
      json_Unmarshal_GqlErrorList = go_json_Unmarshal_GqlErrorList,
      graphqljson_UnmarshalData = UnmarshalData_x\<rparr>"

text \<open>A client whose transport answers every request with the given status and body.\<close>

definition answering :: "int \<Rightarrow> string \<Rightarrow> Client" where
  "answering status body =
     \<lparr>Client_Do = (\<lambda>req. Inr \<lparr>StatusCode = status, ReadAll_Body = Inr body\<rparr>),
      BaseURL = ''http://localhost/query'',
      HTTPRequestOptions = []\<rparr>"

text \<open>\<^verbatim>\<open>req.Header.Add(key, value)\<close>: one more value for the key, after those it has.\<close>

definition Header_Add :: "string \<Rightarrow> string \<Rightarrow> http_Request \<Rightarrow> http_Request" where
  "Header_Add key v req =
     req\<lparr>Header := (Header req)(key \<mapsto>
            (case Header req key of None \<Rightarrow> [v] | Some vs \<Rightarrow> vs @ [v]))\<rparr>"

subsection \<open>The bodies of the examples\<close>

definition body_data_errors_null :: string where
  \<open>body_data_errors_null = ''{"data":{"x":1},"errors":null}''\<close>

definition body_data_errors_empty :: string where
  \<open>body_data_errors_empty = ''{"data":{"x":1},"errors":[]}''\<close>

definition body_data_only :: string where
  \<open>body_data_only = ''{"data":{"x":1}}''\<close>

definition body_errors_not_a_list :: string where
  \<open>body_errors_not_a_list = ''{"errors":"oops"}''\<close>

definition body_server_exploded :: string where
  \<open>body_server_exploded = ''{"errors":[{"message":"server exploded"}]}''\<close>

definition body_bad_gateway :: string where
  \<open>body_bad_gateway = ''Bad Gateway''\<close>

definition body_data_mismatch :: string where
  \<open>body_data_mismatch = ''{"data":{"x":"one"}}''\<close>

definition body_data_mismatch_errors_empty :: string where
  \<open>body_data_mismatch_errors_empty = ''{"data":{"x":"one"},"errors":[]}''\<close>

definition body_data_mismatch_errors_null :: string where
  \<open>body_data_mismatch_errors_null = ''{"data":{"x":"one"},"errors":null}''\<close>

definition body_bad_field :: string where
  \<open>body_bad_field = ''{"data":null,"errors":[{"message":"bad field"}]}''\<close>

definition body_data_and_bad_field :: string where
  \<open>body_data_and_bad_field = ''{"data":{"x":1},"errors":[{"message":"bad field"}]}''\<close>

section \<open>Properties of the sanitizer\<close>

subsection \<open>Assignment to a map\<close>

lemma map_of_map_assign: "map_of (map_assign key v es) = (map_of es)(key \<mapsto> v)"
  by (induction es) (auto simp: fun_eq_iff)

lemma map_assign_fresh: "key \<notin> fst ` set es \<Longrightarrow> map_assign key v es = es @ [(key, v)]"
  by (induction es) auto

lemma keys_map_assign: "fst ` set (map_assign key v es) = insert key (fst ` set es)"
proof (induction es)
  case Nil
  show ?case by simp
next
  case (Cons e es)
  obtain k w where e: "e = (k, w)" by (cases e)
  show ?case
  proof (cases "k = key")
    case True
    then show ?thesis by (simp add: e)
  next
    case False
    then have "fst ` set (map_assign key v (e # es)) = insert k (fst ` set (map_assign key v es))"
      by (simp add: e)
    also have "\<dots> = insert key (fst ` set (e # es))"
      by (simp add: Cons.IH e insert_commute)
    finally show ?thesis .
  qed
qed

lemma nil_key_entries_map_assign:
  "\<not> nil_key_entries es \<Longrightarrow> v \<noteq> GoNil \<Longrightarrow> \<not> nil_key v \<Longrightarrow>
   \<not> nil_key_entries (map_assign key v es)"
  by (induction es) (auto split: if_splits)

lemma sanitized_map_assign:
  "sanitized es \<Longrightarrow> sanitized_val v \<Longrightarrow> sanitized (map_assign key v es)"
proof (induction es)
  case Nil
  then show ?case by simp
next
  case (Cons e es)
  obtain k w where e: "e = (k, w)" by (cases e)
  from Cons e have "k \<noteq> key \<Longrightarrow> k \<notin> fst ` set (map_assign key v es)"
    by (simp add: keys_map_assign)
  with Cons e show ?case by auto
qed

subsection \<open>What the loop leaves in the map\<close>

lemma removeNils_no_nil_key_aux:
  "\<not> nil_key (GoMap (removeNils m))"
  "\<not> nil_key_entries withoutNils \<Longrightarrow> \<not> nil_key_entries (removeNils_range es withoutNils)"
proof (induction m and es withoutNils rule: removeNils_removeNils_range.induct)
  case (1 initialMap)
  then show ?case by (simp add: nil_key.simps)
next
  case (2 withoutNils)
  then show ?case by simp
next
  case (3 key v rest withoutNils)
  show ?case
  proof (cases "v = GoNil")
    case True
    with 3 show ?thesis by simp
  next
    case notnil: False
    show ?thesis
    proof (cases "\<exists>m. v = GoMap m")
      case True
      then obtain m where m: "v = GoMap m" by blast
      have "\<not> nil_key_entries (map_assign key (GoMap (removeNils m)) withoutNils)"
        using 3(7)[OF m] 3(9) by (intro nil_key_entries_map_assign) auto
      with 3(8)[OF m] m show ?thesis by simp
    next
      case False
      then have nk: "\<not> nil_key v" by (cases v) (auto simp: nil_key.simps)
      have a: "\<not> nil_key_entries (map_assign key v withoutNils)"
        using notnil nk 3(9) by (intro nil_key_entries_map_assign) auto
      from False notnil a 3(2-6) show ?thesis by (cases v) auto
    qed
  qed
qed

lemma removeNils_range_lookup:
  "distinct (map fst es) \<Longrightarrow>
   map_of (removeNils_range es withoutNils) key =
     (case map_of es key of
        None \<Rightarrow> map_of withoutNils key
      | Some GoNil \<Rightarrow> map_of withoutNils key
      | Some (GoMap m) \<Rightarrow> Some (GoMap (removeNils m))
      | Some v \<Rightarrow> Some v)"
proof (induction es arbitrary: withoutNils)
  case Nil
  then show ?case by simp
next
  case (Cons e es)
  obtain k v where e: "e = (k, v)" by (cases e)
  from Cons.prems e have fresh: "map_of es k = None" and d: "distinct (map fst es)"
    by (auto simp: map_of_eq_None_iff)
  show ?case
    using Cons.IH[OF d] fresh unfolding e
    by (cases v) (auto simp: map_of_map_assign split: option.splits val.splits)
qed

lemma removeNils_sanitized_aux:
  "sanitized (map_range (removeNils m))"
  "sanitized withoutNils \<Longrightarrow> sanitized (removeNils_range es withoutNils)"
proof (induction m and es withoutNils rule: removeNils_removeNils_range.induct)
  case (1 initialMap)
  then show ?case by simp
next
  case (2 withoutNils)
  then show ?case by simp
next
  case (3 key v rest withoutNils)
  show ?case
  proof (cases v)
    case GoNil
    with 3 show ?thesis by simp
  next
    case (GoMap m)
    have "sanitized_val (GoMap (removeNils m))"
      using 3(7)[OF GoMap] by (simp add: sanitized_val.simps)
    then have "sanitized (map_assign key (GoMap (removeNils m)) withoutNils)"
      using 3(9) by (simp add: sanitized_map_assign)
    with 3(8)[OF GoMap] GoMap show ?thesis by simp
  next
    case (GoBool b)
    have "sanitized (map_assign key v withoutNils)"
      using 3(9) GoBool by (simp add: sanitized_map_assign sanitized_val.simps)
    with 3(2)[OF GoBool] GoBool show ?thesis by simp
  next
    case (GoInt i)
    have "sanitized (map_assign key v withoutNils)"
      using 3(9) GoInt by (simp add: sanitized_map_assign sanitized_val.simps)
    with 3(3)[OF GoInt] GoInt show ?thesis by simp
  next
    case (GoString s)
    have "sanitized (map_assign key v withoutNils)"
      using 3(9) GoString by (simp add: sanitized_map_assign sanitized_val.simps)
    with 3(4)[OF GoString] GoString show ?thesis by simp
  next
    case (GoSlice xs)
    have "sanitized (map_assign key v withoutNils)"
      using 3(9) GoSlice by (simp add: sanitized_map_assign sanitized_val.simps)
    with 3(5)[OF GoSlice] GoSlice show ?thesis by simp
  next
    case (GoPointer p)
    have "sanitized (map_assign key v withoutNils)"
      using 3(9) GoPointer by (simp add: sanitized_map_assign sanitized_val.simps)
    with 3(6)[OF GoPointer] GoPointer show ?thesis by simp
  qed
qed

text \<open>On a map of the sanitized shape the loop copies every entry, in order.\<close>

lemma removeNils_fixes_sanitized_aux:
  "\<forall>es. m = Some es \<longrightarrow> sanitized es \<longrightarrow> removeNils m = Some es"
  "sanitized es \<Longrightarrow> fst ` set es \<inter> fst ` set withoutNils = {} \<Longrightarrow>
     removeNils_range es withoutNils = withoutNils @ es"
proof (induction m and es withoutNils rule: removeNils_removeNils_range.induct)
  case (1 initialMap)
  then show ?case by auto
next
  case (2 withoutNils)
  then show ?case by simp
next
  case (3 key v rest withoutNils)
  from 3(9) have fresh_rest: "key \<notin> fst ` set rest" and sv: "sanitized_val v"
    and sr: "sanitized rest" by auto
  from 3(10) have fresh: "key \<notin> fst ` set withoutNils" by auto
  have disj: "fst ` set rest \<inter> fst ` set (withoutNils @ [(key, w)]) = {}" for w
    using 3(10) fresh_rest by auto
  show ?case
  proof (cases v)
    case GoNil
    with sv show ?thesis by (simp add: sanitized_val.simps)
  next
    case (GoMap m)
    with sv obtain inner where m: "m = Some inner" and si: "sanitized inner"
      by (auto simp: sanitized_val.simps split: option.splits)
    from 3(7)[OF GoMap] m si have same: "removeNils m = m" by simp
    have "removeNils_range rest (map_assign key (GoMap (removeNils m)) withoutNils)
            = (withoutNils @ [(key, v)]) @ rest"
      using 3(8)[OF GoMap] sr disj fresh same GoMap by (simp add: map_assign_fresh)
    with GoMap show ?thesis by simp
  next
    case (GoBool b)
    with 3(2)[OF GoBool] sr disj fresh show ?thesis by (simp add: map_assign_fresh)
  next
    case (GoInt i)
    with 3(3)[OF GoInt] sr disj fresh show ?thesis by (simp add: map_assign_fresh)
  next
    case (GoString s)
    with 3(4)[OF GoString] sr disj fresh show ?thesis by (simp add: map_assign_fresh)
  next
    case (GoSlice xs)
    with 3(5)[OF GoSlice] sr disj fresh show ?thesis by (simp add: map_assign_fresh)
  next
    case (GoPointer p)
    with 3(6)[OF GoPointer] sr disj fresh show ?thesis by (simp add: map_assign_fresh)
  qed
qed

lemma removeNils_lookup:
  "go_map m \<Longrightarrow>
   map_index (removeNils m) key =
     (case map_index m key of
        None \<Rightarrow> None
      | Some GoNil \<Rightarrow> None
      | Some (GoMap inner) \<Rightarrow> Some (GoMap (removeNils inner))
      | Some v \<Rightarrow> Some v)"
  by (simp add: map_index_def go_map_def removeNils_range_lookup
        split: option.splits val.splits)

subsection \<open>Claims about the sanitizer\<close>

text \<open>
  The check \<^verbatim>\<open>value != nil\<close> compares the interface with nil, so it holds of a nil
  pointer stored in the interface: the variables \<^verbatim>\<open>{"after": (*string)(nil)}\<close> come
  back as they went in, and the key is serialized with the value \<^verbatim>\<open>null\<close>. The
  sanitizer is there to keep an argument passed as null off the wire; on this input it
  does not.
\<close>

lemma removeNils_keeps_nil_pointer:
  "removeNils (Some [(''after'', GoPointer None)]) = Some [(''after'', GoPointer None)]
   \<and> has_nil (GoMap (removeNils (Some [(''after'', GoPointer None)])))"
  by simp

text \<open>
  Claim C3, as stated: the output of the sanitizer holds no null at any nesting depth.
  This fails where the null sits inside a value that is not a mapping: the sanitizer
  passes such a value on as it is, so the variables \<^verbatim>\<open>{"ids": [nil]}\<close> come back as
  they went in, the nil still inside the slice.
\<close>

theorem removeNils_keeps_nested_nil:
  "removeNils (Some [(''ids'', GoSlice [GoNil])]) = Some [(''ids'', GoSlice [GoNil])]
   \<and> has_nil (GoMap (removeNils (Some [(''ids'', GoSlice [GoNil])])))"
  by simp

text \<open>
  Claim C3, amended: for every variables mapping, no mapping reached from the output
  through nested mappings has a key whose value is the nil interface; a key whose value
  is the nil interface is absent from the output, a key whose value is a mapping is kept
  with that mapping sanitized by the same rule, and a key with any other value that is
  not a nil pointer (a scalar, a slice whatever it holds, a pointer to a value) is kept
  with the value unchanged. A key absent from the input is absent from the output.
  Nothing is said of a key whose value is a nil pointer.
\<close>

theorem removeNils_strips_nil_keys:
  assumes "go_map m"
  shows "\<not> nil_key (GoMap (removeNils m))
       \<and> (case map_index m key of
            None \<Rightarrow> map_index (removeNils m) key = None
          | Some GoNil \<Rightarrow> map_index (removeNils m) key = None
          | Some (GoMap inner) \<Rightarrow>
              map_index (removeNils m) key = Some (GoMap (removeNils inner))
          | Some (GoPointer None) \<Rightarrow> True
          | Some v \<Rightarrow> map_index (removeNils m) key = Some v)"
  using assms removeNils_no_nil_key_aux(1)[of m] removeNils_lookup[of m key]
  by (simp split: option.splits val.splits)

theorem removeNils_strips_nil_keys_witness:
  "go_map (Some [(''a'', GoNil),
                 (''b'', GoMap (Some [(''c'', GoNil), (''d'', GoInt 1)])),
                 (''ids'', GoSlice [GoNil]),
                 (''e'', GoMap (Some []))])
   \<and> \<not> nil_key (GoMap (removeNils (Some [(''a'', GoNil),
                 (''b'', GoMap (Some [(''c'', GoNil), (''d'', GoInt 1)])),
                 (''ids'', GoSlice [GoNil]),
                 (''e'', GoMap (Some []))])))
   \<and> map_index (removeNils (Some [(''a'', GoNil),
                 (''b'', GoMap (Some [(''c'', GoNil), (''d'', GoInt 1)])),
                 (''ids'', GoSlice [GoNil]),
                 (''e'', GoMap (Some []))])) ''b''
       = Some (GoMap (Some [(''d'', GoInt 1)]))
   \<and> map_index (removeNils (Some [(''a'', GoNil),
                 (''b'', GoMap (Some [(''c'', GoNil), (''d'', GoInt 1)])),
                 (''ids'', GoSlice [GoNil]),
                 (''e'', GoMap (Some []))])) ''a''
       = None
   \<and> map_index (removeNils (Some [(''a'', GoNil),
                 (''b'', GoMap (Some [(''c'', GoNil), (''d'', GoInt 1)])),
                 (''ids'', GoSlice [GoNil]),
                 (''e'', GoMap (Some []))])) ''ids''
       = Some (GoSlice [GoNil])"
proof -
  have h: "go_map (Some [(''a'', GoNil),
                 (''b'', GoMap (Some [(''c'', GoNil), (''d'', GoInt 1)])),
                 (''ids'', GoSlice [GoNil]),
                 (''e'', GoMap (Some []))])"
    by (simp add: go_map_def)
  show ?thesis
    using h removeNils_strips_nil_keys[OF h, of "''b''"]
      removeNils_strips_nil_keys[OF h, of "''a''"]
      removeNils_strips_nil_keys[OF h, of "''ids''"]
    by (simp add: map_index_def)
qed

text \<open>
  Claim C9: the sanitizer is idempotent, for every input mapping (the nil map included):
  sanitizing the output again returns the same map, entry for entry.
\<close>

theorem removeNils_idempotent: "removeNils (removeNils m) = removeNils m"
proof -
  obtain es where es: "removeNils m = Some es" by simp
  with removeNils_sanitized_aux(1)[of m] have "sanitized es" by simp
  with removeNils_fixes_sanitized_aux(1)[of "Some es"] have "removeNils (Some es) = Some es"
    by blast
  with es show ?thesis by simp
qed

text \<open>
  Claim C10: the sanitizer never returns the nil map; the nil map and the empty map both
  give the empty map; a key whose value is the nil map of type
  \<^verbatim>\<open>map[string]interface{}\<close> is kept, with the empty map as its value, while a key
  whose value is the nil interface is dropped.
\<close>

theorem removeNils_never_nil:
  "removeNils m \<noteq> None
   \<and> removeNils None = Some []
   \<and> removeNils (Some []) = Some []
   \<and> (go_map m \<and> map_index m key = Some (GoMap None) \<longrightarrow>
        map_index (removeNils m) key = Some (GoMap (Some [])))
   \<and> (go_map m \<and> map_index m key = Some GoNil \<longrightarrow>
        map_index (removeNils m) key = None)"
  using removeNils_lookup[of m key] by auto

theorem removeNils_never_nil_witness:
  "go_map (Some [(''filter'', GoMap None), (''after'', GoNil)])
   \<and> map_index (Some [(''filter'', GoMap None), (''after'', GoNil)]) ''filter''
       = Some (GoMap None)
   \<and> map_index (removeNils (Some [(''filter'', GoMap None), (''after'', GoNil)])) ''filter''
       = Some (GoMap (Some []))
   \<and> map_index (Some [(''filter'', GoMap None), (''after'', GoNil)]) ''after'' = Some GoNil
   \<and> map_index (removeNils (Some [(''filter'', GoMap None), (''after'', GoNil)])) ''after''
       = None
   \<and> removeNils (Some [(''filter'', GoMap None), (''after'', GoNil)])
       = Some [(''filter'', GoMap (Some []))]"
  using removeNils_never_nil[of "Some [(''filter'', GoMap None), (''after'', GoNil)]" "''filter''"]
    removeNils_never_nil[of "Some [(''filter'', GoMap None), (''after'', GoNil)]" "''after''"]
  by (simp add: go_map_def map_index_def)

section \<open>The reader's fuel\<close>

text \<open>
  Every scanner returns a rest no longer than its input, so twice the length of the
  input is fuel enough for the parser: any two amounts of fuel above that bound give the
  same result.
\<close>

lemma skip_space_length: "length (skip_space s) \<le> length s"
  by (simp add: skip_space_def length_dropWhile_le)

lemma scan_string_length: "scan_string s = Some (str, r) \<Longrightarrow> length r \<le> length s"
proof (induction s arbitrary: str r rule: scan_string.induct)
  case 1
  then show ?case by simp
next
  case (2 c)
  then show ?case by (simp split: if_splits)
next
  case (3 c e cs)
  then show ?case
    by (fastforce split: if_splits option.splits)
qed

lemma scan_digits_length: "scan_digits s = Some (ds, r) \<Longrightarrow> length r \<le> length s"
  by (auto simp: scan_digits_def length_dropWhile_le split: if_splits)

lemma scan_int_part_length: "scan_int_part s = Some (ds, r) \<Longrightarrow> length r \<le> length s"
  by (auto simp: scan_int_part_def split: list.splits if_splits dest: scan_digits_length)

lemma scan_frac_length: "scan_frac s = Some (ds, r) \<Longrightarrow> length r \<le> length s"
  by (fastforce simp: scan_frac_def split: list.splits if_splits dest: scan_digits_length)

lemma scan_exp_length: "scan_exp s = Some (ds, r) \<Longrightarrow> length r \<le> length s"
  by (fastforce simp: scan_exp_def split: list.splits if_splits dest: scan_digits_length)

lemma scan_number_length: "scan_number s = Some (lexeme, r) \<Longrightarrow> length r \<le> length s"
  unfolding scan_number_def
  by (fastforce split: list.splits if_splits option.splits prod.splits
        dest: scan_int_part_length scan_frac_length scan_exp_length)


lemma parse_length:
  "parse_value n s = Some (v, r) \<Longrightarrow> length r \<le> length s"
  "parse_elements n s = Some (vs, r) \<Longrightarrow> length r \<le> length s"
  "parse_members n s = Some (ms, r) \<Longrightarrow> length r \<le> length s"
proof (induction n s and n s and n s arbitrary: v r and vs r and ms r
        rule: parse_value_parse_elements_parse_members.induct)
  case (1 s)
  then show ?case by simp
next
  case (2 n s)
  show ?case
  proof (cases s)
    case Nil
    with 2(3) show ?thesis by simp
  next
    case (Cons c t)
    note s = Cons
    consider (obj) "c = CHR ''{''" | (arr) "c \<noteq> CHR ''{''" "c = CHR ''[''"
      | (str) "c \<noteq> CHR ''{''" "c \<noteq> CHR ''[''" "c = CHR 0x22"
      | (other) "c \<noteq> CHR ''{''" "c \<noteq> CHR ''[''" "c \<noteq> CHR 0x22"
      by blast
    then show ?thesis
    proof cases
      case obj
      show ?thesis
      proof (cases "skip_space t")
        case Nil
        with 2(3) s obj show ?thesis by simp
      next
        case (Cons c' t')
        have le: "length (c' # t') \<le> length t"
          using skip_space_length[of t] Cons by simp
        show ?thesis
        proof (cases "c' = CHR ''}''")
          case True
          with 2(3) s obj Cons le show ?thesis by auto
        next
          case False
          with 2(3) s obj Cons obtain ms where "parse_members n (c' # t') = Some (ms, r)"
            by (auto split: option.splits)
          from 2(1)[OF s obj Cons False this] le s show ?thesis by simp
        qed
      qed
    next
      case arr
      show ?thesis
      proof (cases "skip_space t")
        case Nil
        with 2(3) s arr show ?thesis by simp
      next
        case (Cons c' t')
        have le: "length (c' # t') \<le> length t"
          using skip_space_length[of t] Cons by simp
        show ?thesis
        proof (cases "c' = CHR '']''")
          case True
          with 2(3) s arr Cons le show ?thesis by auto
        next
          case False
          with 2(3) s arr Cons obtain vs where "parse_elements n (c' # t') = Some (vs, r)"
            by (auto split: option.splits)
          from 2(2)[OF s arr(1) arr(2) Cons False this] le s show ?thesis by simp
        qed
      qed
    next
      case str
      with 2(3) s obtain x where "scan_string t = Some (x, r)"
        by (auto split: option.splits)
      from scan_string_length[OF this] s show ?thesis by simp
    next
      case other
      with 2(3) s show ?thesis
        by (auto split: if_splits dest!: scan_number_length)
    qed
  qed
next
  case (3 s)
  then show ?case by simp
next
  case (4 n s)
  from 4(3) obtain v r1 where pv: "parse_value n s = Some (v, r1)"
    by (auto split: option.splits)
  from 4(1)[OF pv] have l1: "length r1 \<le> length s" .
  show ?case
  proof (cases "skip_space r1")
    case Nil
    with 4(3) pv show ?thesis by simp
  next
    case (Cons c r')
    have l2: "length (c # r') \<le> length r1"
      using skip_space_length[of r1] Cons by simp
    show ?thesis
    proof (cases "c = CHR '',''")
      case True
      with 4(3) pv Cons obtain vs' where pe: "parse_elements n (skip_space r') = Some (vs', r)"
        by (auto split: option.splits)
      have "length r \<le> length (skip_space r')"
        using 4(2)[OF pv refl Cons True pe] .
      with skip_space_length[of r'] l1 l2 show ?thesis by simp
    next
      case False
      with 4(3) pv Cons l1 l2 show ?thesis by (auto split: if_splits)
    qed
  qed
next
  case (5 s)
  then show ?case by simp
next
  case (6 n s)
  from 6(3) obtain c t where s: "s = c # t" and q: "c = CHR 0x22"
    by (cases s) (auto split: if_splits)
  from 6(3) s q obtain key r1 where ss: "scan_string t = Some (key, r1)"
    by (auto split: option.splits)
  from 6(3) s q ss obtain c1 r2 where sk: "skip_space r1 = c1 # r2" and col: "c1 = CHR '':''"
    by (cases "skip_space r1") (auto split: if_splits)
  from 6(3) s q ss sk col obtain v r4 where pv: "parse_value n (skip_space r2) = Some (v, r4)"
    by (auto split: option.splits)
  have nq: "\<not> c \<noteq> CHR 0x22" and ncol: "\<not> c1 \<noteq> CHR '':''"
    using q col by simp_all
  have l1: "length r1 \<le> length t"
    by (rule scan_string_length[OF ss])
  have l2: "length (c1 # r2) \<le> length r1"
    using skip_space_length[of r1] sk by simp
  have l3: "length r4 \<le> length (skip_space r2)"
    by (rule 6(1)[OF s nq ss refl sk ncol pv])
  have l3': "length r4 \<le> length r2"
    using l3 skip_space_length[of r2] by simp
  show ?case
  proof (cases "skip_space r4")
    case Nil
    with 6(3) s q ss sk col pv show ?thesis by (simp add: Let_def)
  next
    case (Cons c5 r5)
    have l4: "length (c5 # r5) \<le> length r4"
      using skip_space_length[of r4] Cons by simp
    show ?thesis
    proof (cases "c5 = CHR '',''")
      case True
      with 6(3) s q ss sk col pv Cons obtain ms'
        where pm: "parse_members n (skip_space r5) = Some (ms', r)"
        by (auto simp: Let_def split: option.splits)
      have "length r \<le> length (skip_space r5)"
        by (rule 6(2)[OF s nq ss refl sk ncol pv refl refl Cons True pm])
      with skip_space_length[of r5] l1 l2 l3' l4 s show ?thesis by simp
    next
      case False
      with 6(3) s q ss sk col pv Cons l1 l2 l3' l4 show ?thesis
        by (auto simp: Let_def split: if_splits)
    qed
  qed
qed

lemma parse_fuel:
  "2 * length s \<le> n \<Longrightarrow> 2 * length s \<le> m \<Longrightarrow> parse_value n s = parse_value m s"
  "Suc (2 * length s) \<le> n \<Longrightarrow> Suc (2 * length s) \<le> m \<Longrightarrow>
     parse_elements n s = parse_elements m s"
  "Suc (2 * length s) \<le> n \<Longrightarrow> Suc (2 * length s) \<le> m \<Longrightarrow>
     parse_members n s = parse_members m s"
proof (induction n s and n s and n s arbitrary: m and m and m
        rule: parse_value_parse_elements_parse_members.induct)
  case (1 s)
  then show ?case by (cases m) simp_all
next
  case (2 n s)
  show ?case
  proof (cases s)
    case Nil
    then show ?thesis by (cases m) simp_all
  next
    case (Cons c t)
    with 2(4) obtain m' where m: "m = Suc m'"
      by (cases m) auto
    have bound: "Suc (2 * length (c' # t')) \<le> n \<and> Suc (2 * length (c' # t')) \<le> m'"
      if "skip_space t = c' # t'" for c' t'
      using skip_space_length[of t] that 2(3,4) Cons m by simp
    have mem: "parse_members n (c' # t') = parse_members m' (c' # t')"
      if "c = CHR ''{''" "skip_space t = c' # t'" "c' \<noteq> CHR ''}''" for c' t'
      using 2(1)[OF Cons that, of m'] bound[OF that(2)] by simp
    have el: "parse_elements n (c' # t') = parse_elements m' (c' # t')"
      if "c \<noteq> CHR ''{''" "c = CHR ''[''" "skip_space t = c' # t'" "c' \<noteq> CHR '']''" for c' t'
      using 2(2)[OF Cons that, of m'] bound[OF that(3)] by simp
    show ?thesis
      unfolding m using Cons mem el
      by (auto split: list.splits)
  qed
next
  case (3 s)
  then show ?case by simp
next
  case (4 n s)
  from 4(4) obtain m' where m: "m = Suc m'"
    by (cases m) auto
  have pv: "parse_value n s = parse_value m' s"
    using 4(1)[of m'] 4(3,4) m by simp
  have pe: "parse_elements n (skip_space r') = parse_elements m' (skip_space r')"
    if "parse_value n s = Some (v, r1)" "skip_space r1 = c # r'" "c = CHR '',''" for v r1 c r'
  proof -
    have "length r1 \<le> length s"
      by (rule parse_length(1)[OF that(1)])
    with skip_space_length[of r1] skip_space_length[of r'] that(2)
    have "Suc (length (skip_space r')) \<le> length s"
      by simp
    with 4(3,4) m have "Suc (2 * length (skip_space r')) \<le> n"
      and "Suc (2 * length (skip_space r')) \<le> m'"
      by simp_all
    with 4(2)[OF that(1) refl that(2,3), of m'] show ?thesis
      by simp
  qed
  show ?case
    unfolding m using pv pe
    by (auto split: option.splits list.splits)
next
  case (5 s)
  then show ?case by simp
next
  case (6 n s)
  from 6(4) obtain m' where m: "m = Suc m'"
    by (cases m) auto
  have pv: "parse_value n (skip_space r2) = parse_value m' (skip_space r2)"
    if "s = c # t" "c = CHR 0x22" "scan_string t = Some (key, r1)"
       "skip_space r1 = c1 # r2" "c1 = CHR '':''" for c t key r1 c1 r2
  proof -
    have "length r1 \<le> length t"
      by (rule scan_string_length[OF that(3)])
    with skip_space_length[of r1] skip_space_length[of r2] that(1,4)
    have "Suc (length (skip_space r2)) \<le> length s"
      by simp
    with 6(3,4) m have "2 * length (skip_space r2) \<le> n" and "2 * length (skip_space r2) \<le> m'"
      by simp_all
    moreover have "\<not> c \<noteq> CHR 0x22" and "\<not> c1 \<noteq> CHR '':''"
      using that by simp_all
    ultimately show ?thesis
      using 6(1)[OF that(1) _ that(3) refl that(4), of m'] by simp
  qed
  have pm: "parse_members n (skip_space r5) = parse_members m' (skip_space r5)"
    if "s = c # t" "c = CHR 0x22" "scan_string t = Some (key, r1)"
       "skip_space r1 = c1 # r2" "c1 = CHR '':''"
       "parse_value n (skip_space r2) = Some (v, r4)"
       "skip_space r4 = c5 # r5" "c5 = CHR '',''" for c t key r1 c1 r2 v r4 c5 r5
  proof -
    have "length r1 \<le> length t"
      by (rule scan_string_length[OF that(3)])
    moreover have "length r4 \<le> length (skip_space r2)"
      by (rule parse_length(1)[OF that(6)])
    ultimately have "Suc (length (skip_space r5)) \<le> length s"
      using skip_space_length[of r1] skip_space_length[of r2] skip_space_length[of r4]
        skip_space_length[of r5] that(1,4,7)
      by simp
    with 6(3,4) m have "Suc (2 * length (skip_space r5)) \<le> n"
      and "Suc (2 * length (skip_space r5)) \<le> m'"
      by simp_all
    moreover have "\<not> c \<noteq> CHR 0x22" and "\<not> c1 \<noteq> CHR '':''"
      using that by simp_all
    ultimately show ?thesis
      using 6(2)[OF that(1) _ that(3) refl that(4) _ that(6) refl refl that(7,8), of m'] by simp
  qed
  show ?case
  proof (cases s)
    case Nil
    then show ?thesis by (simp add: m)
  next
    case (Cons c t)
    show ?thesis
    proof (cases "c = CHR 0x22")
      case False
      with Cons show ?thesis by (simp add: m)
    next
      case q: True
      show ?thesis
      proof (cases "scan_string t")
        case None
        with Cons q show ?thesis by (simp add: m)
      next
        case (Some kr)
        obtain key r1 where kr: "kr = (key, r1)" by (cases kr)
        note ss = Some[unfolded kr]
        show ?thesis
        proof (cases "skip_space r1")
          case Nil
          with Cons q ss show ?thesis by (simp add: m)
        next
          case sk: (Cons c1 r2)
          show ?thesis
          proof (cases "c1 = CHR '':''")
            case False
            with Cons q ss sk show ?thesis by (simp add: m)
          next
            case col: True
            note v = pv[OF Cons q ss sk col]
            show ?thesis
            proof (cases "parse_value n (skip_space r2)")
              case None
              with Cons q ss sk col v show ?thesis by (simp add: m)
            next
              case (Some vr)
              obtain v' r4 where vr: "vr = (v', r4)" by (cases vr)
              note p = Some[unfolded vr]
              have "parse_members n (skip_space r5) = parse_members m' (skip_space r5)"
                if "skip_space r4 = c5 # r5" "c5 = CHR '',''" for c5 r5
                by (rule pm[OF Cons q ss sk col p that])
              moreover have p': "parse_value m' (skip_space r2) = Some (v', r4)"
                using p v by simp
              ultimately show ?thesis
                using Cons q ss sk col p
                by (auto simp: m Let_def split: list.splits)
            qed
          qed
        qed
      qed
    qed
  qed
qed

lemma json_parse_fuel:
  assumes "2 * length s \<le> n"
  shows "(case parse_value n (skip_space s) of
            None \<Rightarrow> None
          | Some (v, rest) \<Rightarrow> if skip_space rest = [] then Some v else None) = json_parse s"
proof -
  have "2 * length (skip_space s) \<le> n" and "2 * length (skip_space s) \<le> 2 * length s"
    using assms skip_space_length[of s] by simp_all
  then have "parse_value n (skip_space s) = parse_value (2 * length s) (skip_space s)"
    by (rule parse_fuel(1))
  then show ?thesis
    by (simp add: json_parse_def)
qed


section \<open>Properties of the response interpreter\<close>

subsection \<open>The branches of unmarshal\<close>

lemma unmarshal_envelope_undecodable:
  assumes "json_Unmarshal_response lib data = Inl err"
  shows "unmarshal lib data res =
           (res, Some (PlainError (''failed to decode data '' @ data @ '': '' @ err)))"
  using assms by (simp add: unmarshal_def)

lemma unmarshal_errors_decoded:
  assumes "json_Unmarshal_response lib data = Inr resp"
    and "Errors resp = Some raw" and "raw \<noteq> []"
    and "json_Unmarshal_GqlErrorList lib data = Inr errs"
  shows "unmarshal lib data res = (res, Some (GqlErrorListError errs))"
  using assms by (simp add: unmarshal_def)

lemma unmarshal_errors_undecodable:
  assumes "json_Unmarshal_response lib data = Inr resp"
    and "Errors resp = Some raw" and "raw \<noteq> []"
    and "json_Unmarshal_GqlErrorList lib data = Inl e"
  shows "unmarshal lib data res =
           (res, Some (PlainError
              (''faild to parse graphql errors. Response content '' @ data
                 @ '' - '' @ e @ '' '')))"
  using assms by (simp add: unmarshal_def)

lemma unmarshal_data:
  assumes "json_Unmarshal_response lib data = Inr resp"
    and "Errors resp = None \<or> Errors resp = Some []"
  shows "unmarshal lib data res =
           (case graphqljson_UnmarshalData lib (Data resp) res of
              (res', Some err) \<Rightarrow>
                (res', Some (PlainError
                   (''failed to decode data into response '' @ data @ '': '' @ err)))
            | (res', None) \<Rightarrow> (res', None))"
  using assms by (auto simp: unmarshal_def)

lemma return_errResponse_network:
  "return_errResponse result \<lparr>NetworkError = Some ne, GqlErrors = g\<rparr> =
     (result, Some (ErrorResponseError \<lparr>NetworkError = Some ne, GqlErrors = g\<rparr>))"
  by (simp add: return_errResponse_def HasErrors_def)

lemma return_errResponse_gql:
  "return_errResponse result \<lparr>NetworkError = n, GqlErrors = Some errs\<rparr> =
     (result, Some (ErrorResponseError \<lparr>NetworkError = n, GqlErrors = Some errs\<rparr>))"
  by (simp add: return_errResponse_def HasErrors_def)

lemma return_errResponse_none:
  "return_errResponse result \<lparr>NetworkError = None, GqlErrors = None\<rparr> = (result, None)"
  by (simp add: return_errResponse_def HasErrors_def)

lemmas return_errResponse_simps =
  return_errResponse_network return_errResponse_gql return_errResponse_none

text \<open>
  A status in [200,299], an envelope whose errors are nil or of length 0, data that
  decodes: the call succeeds with the target as the decoder of data leaves it.
\<close>

lemma parseResponse_success:
  assumes "200 \<le> httpCode" and "httpCode \<le> 299"
    and "json_Unmarshal_response lib body = Inr resp"
    and "Errors resp = None \<or> Errors resp = Some []"
    and "graphqljson_UnmarshalData lib (Data resp) result = (result', None)"
  shows "parseResponse lib body httpCode result = (result', None)"
  using assms
  by (simp add: parseResponse_def unmarshal_data[OF assms(3,4)] return_errResponse_simps)

text \<open>Once the request is built and answered, \<open>Post\<close> is \<open>parseResponse\<close> on the answer.\<close>

lemma Post_parseResponse:
  assumes "newRequest lib c query vars httpRequestOptions = Inr req"
    and "Client_Do c
           (Header_Set ''Accept'' ''application/json; charset=utf-8''
             (Header_Set ''Content-Type'' ''application/json; charset=utf-8'' req)) = Inr resp"
    and "ReadAll_Body resp = Inr body"
  shows "Post lib c query respData vars httpRequestOptions =
           parseResponse lib body (StatusCode resp) respData"
  using assms by (simp add: Post_def)

subsection \<open>The decoders on the bodies of the examples\<close>

lemma envelope_data_errors_null:
  "go_json_Unmarshal_response body_data_errors_null =
     Inr \<lparr>Data = Some ''{\"x\":1}'', Errors = Some ''null''\<rparr>"
  by code_simp

lemma errors_data_errors_null:
  "go_json_Unmarshal_GqlErrorList body_data_errors_null = Inr []"
  by code_simp

lemma envelope_data_only:
  "go_json_Unmarshal_response body_data_only = Inr \<lparr>Data = Some ''{\"x\":1}'', Errors = None\<rparr>"
  by code_simp

lemma envelope_errors_not_a_list:
  "go_json_Unmarshal_response body_errors_not_a_list =
     Inr \<lparr>Data = None, Errors = Some ''\"oops\"''\<rparr>"
  by code_simp

lemma errors_errors_not_a_list:
  "go_json_Unmarshal_GqlErrorList body_errors_not_a_list =
     Inl ''json: cannot unmarshal into Go struct field GqlErrorList.errors of type gqlerror.List''"
  by code_simp

lemma envelope_server_exploded:
  "go_json_Unmarshal_response body_server_exploded =
     Inr \<lparr>Data = None, Errors = Some ''[{\"message\":\"server exploded\"}]''\<rparr>"
  by code_simp

lemma errors_server_exploded:
  "go_json_Unmarshal_GqlErrorList body_server_exploded =
     Inr [Some \<lparr>gqlerror_Message = ''server exploded''\<rparr>]"
  by code_simp

lemma envelope_bad_gateway:
  "go_json_Unmarshal_response body_bad_gateway = Inl ''json: syntax error''"
  by code_simp

lemma envelope_data_mismatch:
  "go_json_Unmarshal_response body_data_mismatch =
     Inr \<lparr>Data = Some ''{\"x\":\"one\"}'', Errors = None\<rparr>"
  by code_simp

lemma data_data_mismatch:
  "UnmarshalData_x (Some ''{\"x\":\"one\"}'') \<lparr>field_x = 0\<rparr> =
     (\<lparr>field_x = 0\<rparr>, Some ''x: not a number'')"
  by code_simp

lemma envelope_bad_field:
  "go_json_Unmarshal_response body_bad_field =
     Inr \<lparr>Data = Some ''null'', Errors = Some ''[{\"message\":\"bad field\"}]''\<rparr>"
  by code_simp

lemma errors_bad_field:
  "go_json_Unmarshal_GqlErrorList body_bad_field =
     Inr [Some \<lparr>gqlerror_Message = ''bad field''\<rparr>]"
  by code_simp

lemma envelope_data_and_bad_field:
  "go_json_Unmarshal_response body_data_and_bad_field =
     Inr \<lparr>Data = Some ''{\"x\":1}'', Errors = Some ''[{\"message\":\"bad field\"}]''\<rparr>"
  by code_simp

lemma errors_data_and_bad_field:
  "go_json_Unmarshal_GqlErrorList body_data_and_bad_field =
     Inr [Some \<lparr>gqlerror_Message = ''bad field''\<rparr>]"
  by code_simp

lemma data_x_1:
  "UnmarshalData_x (Some ''{\"x\":1}'') \<lparr>field_x = 0\<rparr> = (\<lparr>field_x = 1\<rparr>, None)"
  by code_simp

lemma example_lib_simps:
  "json_Unmarshal_response example_lib = go_json_Unmarshal_response"
  "json_Unmarshal_GqlErrorList example_lib = go_json_Unmarshal_GqlErrorList"
  "graphqljson_UnmarshalData example_lib = UnmarshalData_x"
  "json_Marshal example_lib = example_Marshal"
  "http_NewRequestWithContext example_lib = example_NewRequest"
  by (simp_all add: example_lib_def)

subsection \<open>Claims about the response interpreter\<close>

text \<open>
  Claim C1: with a status in [200,299] and an envelope whose errors are absent or empty,
  bodies with \<^verbatim>\<open>"errors":null\<close> included, \<open>Post\<close> decodes data into the target and
  succeeds. The code departs from this on \<^verbatim>\<open>{"data":{"x":1},"errors":null}\<close> with
  status 200: the raw message of the errors is the four bytes \<^verbatim>\<open>null\<close>, not empty, so
  \<open>unmarshal\<close> takes the error branch, decodes an empty list, and \<open>Post\<close> returns an
  \<^verbatim>\<open>ErrorResponse\<close> whose list of errors is set and empty; the target stays as it was.
  An empty array for the errors fares the same. The same data with the errors left out
  is decoded and the call succeeds.
\<close>

theorem Post_errors_null_returns_ErrorResponse:
  "Post example_lib (answering 200 body_data_errors_null) ''query{x}'' \<lparr>field_x = 0\<rparr> None [] =
     (\<lparr>field_x = 0\<rparr>, Some (ErrorResponseError \<lparr>NetworkError = None, GqlErrors = Some []\<rparr>))
   \<and> Post example_lib (answering 200 body_data_errors_empty) ''query{x}'' \<lparr>field_x = 0\<rparr> None [] =
     (\<lparr>field_x = 0\<rparr>, Some (ErrorResponseError \<lparr>NetworkError = None, GqlErrors = Some []\<rparr>))
   \<and> Post example_lib (answering 200 body_data_only) ''query{x}'' \<lparr>field_x = 0\<rparr> None [] =
     (\<lparr>field_x = 1\<rparr>, None)"
  by code_simp

text \<open>
  Claim C2, as stated: an errors field that is present, not empty and does not decode
  into a list of errors gives a hard decode error whatever the status. This fails for a
  status outside [200,299]: with status 500 and the body \<^verbatim>\<open>{"errors":"oops"}\<close> the
  decode error is dropped and the call returns an \<^verbatim>\<open>ErrorResponse\<close> that holds the
  network error alone.
\<close>

theorem parseResponse_undecodable_errors_status_500:
  "go_json_Unmarshal_response body_errors_not_a_list =
     Inr \<lparr>Data = None, Errors = Some ''\"oops\"''\<rparr>
   \<and> isl (go_json_Unmarshal_GqlErrorList body_errors_not_a_list)
   \<and> parseResponse example_lib body_errors_not_a_list 500 \<lparr>field_x = 0\<rparr> =
       (\<lparr>field_x = 0\<rparr>,
        Some (ErrorResponseError
          \<lparr>NetworkError = Some \<lparr>Code = 500, Message = ''Response body {\"errors\":\"oops\"}''\<rparr>,
           GqlErrors = None\<rparr>))"
  by code_simp

text \<open>
  Claim C2, amended: when the envelope decodes, its errors field is present and not
  empty, and that field fails to decode into a list of errors, then with a status in
  [200,299] the call returns the decode error itself, as a plain error; with a status
  outside [200,299] the decode error is dropped and the call returns an
  \<^verbatim>\<open>ErrorResponse\<close> holding the network error and no list of errors. The target is
  untouched either way.
\<close>

theorem parseResponse_undecodable_errors:
  assumes "json_Unmarshal_response lib body = Inr resp"
    and "Errors resp = Some raw" and "raw \<noteq> []"
    and "json_Unmarshal_GqlErrorList lib body = Inl e"
  shows "parseResponse lib body httpCode result =
           (if 200 \<le> httpCode \<and> httpCode \<le> 299
            then (result, Some (PlainError
                    (''faild to parse graphql errors. Response content '' @ body
                       @ '' - '' @ e @ '' '')))
            else (result, Some (ErrorResponseError
                    \<lparr>NetworkError =
                       Some \<lparr>Code = httpCode, Message = ''Response body '' @ body\<rparr>,
                     GqlErrors = None\<rparr>)))"
  by (auto simp: parseResponse_def unmarshal_errors_undecodable[OF assms]
        return_errResponse_simps)

theorem parseResponse_undecodable_errors_witness:
  "go_json_Unmarshal_response body_errors_not_a_list =
     Inr \<lparr>Data = None, Errors = Some ''\"oops\"''\<rparr>
   \<and> parseResponse example_lib body_errors_not_a_list 200 \<lparr>field_x = 0\<rparr> =
       (\<lparr>field_x = 0\<rparr>,
        Some (PlainError
          (''faild to parse graphql errors. Response content '' @ body_errors_not_a_list
             @ '' - json: cannot unmarshal into Go struct field GqlErrorList.errors of type gqlerror.List '')))"
proof -
  have h1: "json_Unmarshal_response example_lib body_errors_not_a_list =
              Inr \<lparr>Data = None, Errors = Some ''\"oops\"''\<rparr>"
    by (simp add: example_lib_simps envelope_errors_not_a_list)
  have h2: "Errors \<lparr>Data = None, Errors = Some ''\"oops\"''\<rparr> = Some ''\"oops\"''"
    by simp
  have h3: "''\"oops\"'' \<noteq> []"
    by simp
  have h4: "json_Unmarshal_GqlErrorList example_lib body_errors_not_a_list =
              Inl ''json: cannot unmarshal into Go struct field GqlErrorList.errors of type gqlerror.List''"
    by (simp add: example_lib_simps errors_errors_not_a_list)
  show ?thesis
    using parseResponse_undecodable_errors[OF h1 h2 h3 h4, of 200 "\<lparr>field_x = 0\<rparr>"]
    by (simp add: envelope_errors_not_a_list)
qed

text \<open>
  Claim C4: a network error and a list of protocol errors can stand in one
  \<^verbatim>\<open>ErrorResponse\<close>. Whenever the status is outside [200,299] and the body carries an
  errors field that decodes into a list, the call returns an \<^verbatim>\<open>ErrorResponse\<close> with
  the network error (that status, the body in its message) and that list, both set. The
  witness is the specification's example: status 500, one error "server exploded".
\<close>

theorem parseResponse_network_and_protocol_errors:
  assumes "httpCode < 200 \<or> 299 < httpCode"
    and "json_Unmarshal_response lib body = Inr resp"
    and "Errors resp = Some raw" and "raw \<noteq> []"
    and "json_Unmarshal_GqlErrorList lib body = Inr errs"
  shows "parseResponse lib body httpCode result =
           (result, Some (ErrorResponseError
              \<lparr>NetworkError = Some \<lparr>Code = httpCode, Message = ''Response body '' @ body\<rparr>,
               GqlErrors = Some errs\<rparr>))"
  using assms(1)
  by (auto simp: parseResponse_def unmarshal_errors_decoded[OF assms(2-5)]
        return_errResponse_simps)

theorem parseResponse_network_and_protocol_errors_witness:
  "((500::int) < 200 \<or> 299 < (500::int))
   \<and> parseResponse example_lib body_server_exploded 500 \<lparr>field_x = 0\<rparr> =
       (\<lparr>field_x = 0\<rparr>,
        Some (ErrorResponseError
          \<lparr>NetworkError =
             Some \<lparr>Code = 500, Message = ''Response body '' @ body_server_exploded\<rparr>,
           GqlErrors = Some [Some \<lparr>gqlerror_Message = ''server exploded''\<rparr>]\<rparr>))
   \<and> HasErrors
        \<lparr>NetworkError =
           Some \<lparr>Code = 500, Message = ''Response body '' @ body_server_exploded\<rparr>,
         GqlErrors = Some [Some \<lparr>gqlerror_Message = ''server exploded''\<rparr>]\<rparr>"
proof -
  have h1: "(500::int) < 200 \<or> 299 < (500::int)"
    by simp
  have h2: "json_Unmarshal_response example_lib body_server_exploded =
              Inr \<lparr>Data = None, Errors = Some ''[{\"message\":\"server exploded\"}]''\<rparr>"
    by (simp add: example_lib_simps envelope_server_exploded)
  have h3: "Errors \<lparr>Data = None, Errors = Some ''[{\"message\":\"server exploded\"}]''\<rparr>
              = Some ''[{\"message\":\"server exploded\"}]''"
    by simp
  have h4: "''[{\"message\":\"server exploded\"}]'' \<noteq> []"
    by simp
  have h5: "json_Unmarshal_GqlErrorList example_lib body_server_exploded =
              Inr [Some \<lparr>gqlerror_Message = ''server exploded''\<rparr>]"
    by (simp add: example_lib_simps errors_server_exploded)
  show ?thesis
    using parseResponse_network_and_protocol_errors[OF h1 h2 h3 h4 h5, of "\<lparr>field_x = 0\<rparr>"]
    by (simp add: HasErrors_def)
qed

text \<open>
  Claim C5: when the status is outside [200,299] and the body does not decode as an
  envelope, the call returns an \<^verbatim>\<open>ErrorResponse\<close> whose network error carries the
  status and a message that ends with the raw body, whose list of protocol errors is
  nil, and no decode error reaches the caller. The witness: status 502, body
  \<^verbatim>\<open>Bad Gateway\<close>.
\<close>

theorem parseResponse_network_error_hides_decode_error:
  assumes "httpCode < 200 \<or> 299 < httpCode"
    and "json_Unmarshal_response lib body = Inl err"
  shows "parseResponse lib body httpCode result =
           (result, Some (ErrorResponseError
              \<lparr>NetworkError = Some \<lparr>Code = httpCode, Message = ''Response body '' @ body\<rparr>,
               GqlErrors = None\<rparr>))"
  using assms(1)
  by (auto simp: parseResponse_def unmarshal_envelope_undecodable[OF assms(2)]
        return_errResponse_simps)

theorem parseResponse_network_error_hides_decode_error_witness:
  "((502::int) < 200 \<or> 299 < (502::int))
   \<and> go_json_Unmarshal_response body_bad_gateway = Inl ''json: syntax error''
   \<and> parseResponse example_lib body_bad_gateway 502 \<lparr>field_x = 0\<rparr> =
       (\<lparr>field_x = 0\<rparr>,
        Some (ErrorResponseError
          \<lparr>NetworkError = Some \<lparr>Code = 502, Message = ''Response body Bad Gateway''\<rparr>,
           GqlErrors = None\<rparr>))"
proof -
  have h1: "(502::int) < 200 \<or> 299 < (502::int)"
    by simp
  have h2: "json_Unmarshal_response example_lib body_bad_gateway = Inl ''json: syntax error''"
    by (simp add: example_lib_simps envelope_bad_gateway)
  show ?thesis
    using parseResponse_network_error_hides_decode_error[OF h1 h2, of "\<lparr>field_x = 0\<rparr>"]
    by (simp add: envelope_bad_gateway[unfolded body_bad_gateway_def] body_bad_gateway_def)
qed

text \<open>
  With a status in [200,299], an envelope whose raw errors are nil or of length 0 (no
  decoder gives a present member no bytes, so: a body without the errors key), and data
  that the decoder of data rejects for the target, the call returns that decode error as
  a plain error, not an \<^verbatim>\<open>ErrorResponse\<close>.
\<close>

lemma parseResponse_data_mismatch:
  assumes "200 \<le> httpCode" and "httpCode \<le> 299"
    and "json_Unmarshal_response lib body = Inr resp"
    and "Errors resp = None \<or> Errors resp = Some []"
    and "graphqljson_UnmarshalData lib (Data resp) result = (result', Some err)"
  shows "parseResponse lib body httpCode result =
           (result', Some (PlainError
              (''failed to decode data into response '' @ body @ '': '' @ err)))"
  using assms(1,2,5)
  by (simp add: parseResponse_def unmarshal_data[OF assms(3,4)])

lemma parseResponse_data_mismatch_example:
  "go_json_Unmarshal_response body_data_mismatch =
     Inr \<lparr>Data = Some ''{\"x\":\"one\"}'', Errors = None\<rparr>
   \<and> UnmarshalData_x (Some ''{\"x\":\"one\"}'') \<lparr>field_x = 0\<rparr> =
       (\<lparr>field_x = 0\<rparr>, Some ''x: not a number'')
   \<and> parseResponse example_lib body_data_mismatch 200 \<lparr>field_x = 0\<rparr> =
       (\<lparr>field_x = 0\<rparr>,
        Some (PlainError
          (''failed to decode data into response '' @ body_data_mismatch
             @ '': x: not a number'')))"
proof -
  have h1: "(200::int) \<le> 200" and h2: "(200::int) \<le> 299"
    by simp_all
  have h3: "json_Unmarshal_response example_lib body_data_mismatch =
              Inr \<lparr>Data = Some ''{\"x\":\"one\"}'', Errors = None\<rparr>"
    by (simp add: example_lib_simps envelope_data_mismatch)
  have h4: "Errors \<lparr>Data = Some ''{\"x\":\"one\"}'', Errors = None\<rparr> = None
              \<or> Errors \<lparr>Data = Some ''{\"x\":\"one\"}'', Errors = None\<rparr> = Some []"
    by simp
  have h5: "graphqljson_UnmarshalData example_lib
              (Data \<lparr>Data = Some ''{\"x\":\"one\"}'', Errors = None\<rparr>) \<lparr>field_x = 0\<rparr> =
              (\<lparr>field_x = 0\<rparr>, Some ''x: not a number'')"
    by (simp add: example_lib_simps data_data_mismatch)
  show ?thesis
    using parseResponse_data_mismatch[OF h1 h2 h3 h4 h5]
    by (simp add: envelope_data_mismatch data_data_mismatch)
qed

text \<open>
  Claim C6: with a status in [200,299], an envelope that has no errors or empty errors,
  and data that does not fit the target, the call returns a hard decode error as a plain
  error, not an \<^verbatim>\<open>ErrorResponse\<close>. The code departs from this where the body spells
  the empty errors out: on \<^verbatim>\<open>{"data":{"x":"one"},"errors":[]}\<close> and on
  \<^verbatim>\<open>{"data":{"x":"one"},"errors":null}\<close> with status 200 the raw message of the
  errors is not empty, \<open>unmarshal\<close> takes the error branch and never looks at data, and
  the call returns an \<^verbatim>\<open>ErrorResponse\<close> whose list of errors is set and empty. The
  data itself is one the decoder of data rejects, and with the errors key left out the
  call does return the decode error.
\<close>

theorem parseResponse_data_mismatch_empty_errors_returns_ErrorResponse:
  "parseResponse example_lib body_data_mismatch_errors_empty 200 \<lparr>field_x = 0\<rparr> =
     (\<lparr>field_x = 0\<rparr>, Some (ErrorResponseError \<lparr>NetworkError = None, GqlErrors = Some []\<rparr>))
   \<and> parseResponse example_lib body_data_mismatch_errors_null 200 \<lparr>field_x = 0\<rparr> =
     (\<lparr>field_x = 0\<rparr>, Some (ErrorResponseError \<lparr>NetworkError = None, GqlErrors = Some []\<rparr>))
   \<and> go_json_Unmarshal_response body_data_mismatch_errors_empty =
       Inr \<lparr>Data = Some ''{\"x\":\"one\"}'', Errors = Some ''[]''\<rparr>
   \<and> go_json_Unmarshal_response body_data_mismatch_errors_null =
       Inr \<lparr>Data = Some ''{\"x\":\"one\"}'', Errors = Some ''null''\<rparr>
   \<and> UnmarshalData_x (Some ''{\"x\":\"one\"}'') \<lparr>field_x = 0\<rparr> =
       (\<lparr>field_x = 0\<rparr>, Some ''x: not a number'')
   \<and> parseResponse example_lib body_data_mismatch 200 \<lparr>field_x = 0\<rparr> =
       (\<lparr>field_x = 0\<rparr>,
        Some (PlainError
          (''failed to decode data into response '' @ body_data_mismatch
             @ '': x: not a number'')))"
  by code_simp

text \<open>
  Claim C7: when the envelope's errors field is present, not empty and decodes into a
  list of errors, data is never decoded into the target: the target comes back as it
  went in, the outcome is the same whatever the decoder of data would do, and the call
  returns an \<^verbatim>\<open>ErrorResponse\<close> with that list. The witnesses: the specification's
  body with \<^verbatim>\<open>"data":null\<close>, and a body whose data would fit the target.
\<close>

theorem parseResponse_errors_discard_data:
  assumes "json_Unmarshal_response lib body = Inr resp"
    and "Errors resp = Some raw" and "raw \<noteq> []"
    and "json_Unmarshal_GqlErrorList lib body = Inr errs"
  shows "fst (parseResponse lib body httpCode result) = result
       \<and> parseResponse (lib\<lparr>graphqljson_UnmarshalData := other\<rparr>) body httpCode result =
           parseResponse lib body httpCode result
       \<and> snd (parseResponse lib body httpCode result) =
           Some (ErrorResponseError
             \<lparr>NetworkError =
                (if httpCode < 200 \<or> 299 < httpCode
                 then Some \<lparr>Code = httpCode, Message = ''Response body '' @ body\<rparr>
                 else None),
              GqlErrors = Some errs\<rparr>)"
proof -
  have a: "unmarshal lib body result = (result, Some (GqlErrorListError errs))"
    by (rule unmarshal_errors_decoded[OF assms])
  have b: "unmarshal (lib\<lparr>graphqljson_UnmarshalData := other\<rparr>) body result =
             (result, Some (GqlErrorListError errs))"
    using assms by (intro unmarshal_errors_decoded[where resp = resp and raw = raw]) simp_all
  show ?thesis
    by (simp add: parseResponse_def a b return_errResponse_simps)
qed

theorem parseResponse_errors_discard_data_witness:
  "parseResponse example_lib body_bad_field 200 \<lparr>field_x = 0\<rparr> =
     (\<lparr>field_x = 0\<rparr>,
      Some (ErrorResponseError
        \<lparr>NetworkError = None, GqlErrors = Some [Some \<lparr>gqlerror_Message = ''bad field''\<rparr>]\<rparr>))
   \<and> go_json_Unmarshal_response body_data_and_bad_field =
       Inr \<lparr>Data = Some ''{\"x\":1}'', Errors = Some ''[{\"message\":\"bad field\"}]''\<rparr>
   \<and> UnmarshalData_x (Some ''{\"x\":1}'') \<lparr>field_x = 0\<rparr> = (\<lparr>field_x = 1\<rparr>, None)
   \<and> parseResponse example_lib body_data_and_bad_field 200 \<lparr>field_x = 0\<rparr> =
       (\<lparr>field_x = 0\<rparr>,
        Some (ErrorResponseError
          \<lparr>NetworkError = None, GqlErrors = Some [Some \<lparr>gqlerror_Message = ''bad field''\<rparr>]\<rparr>))"
proof -
  have h1: "json_Unmarshal_response example_lib body_bad_field =
              Inr \<lparr>Data = Some ''null'', Errors = Some ''[{\"message\":\"bad field\"}]''\<rparr>"
    by (simp add: example_lib_simps envelope_bad_field)
  have h2: "Errors \<lparr>Data = Some ''null'', Errors = Some ''[{\"message\":\"bad field\"}]''\<rparr>
              = Some ''[{\"message\":\"bad field\"}]''"
    by simp
  have h3: "''[{\"message\":\"bad field\"}]'' \<noteq> []"
    by simp
  have h4: "json_Unmarshal_GqlErrorList example_lib body_bad_field =
              Inr [Some \<lparr>gqlerror_Message = ''bad field''\<rparr>]"
    by (simp add: example_lib_simps errors_bad_field)
  have g1: "json_Unmarshal_response example_lib body_data_and_bad_field =
              Inr \<lparr>Data = Some ''{\"x\":1}'', Errors = Some ''[{\"message\":\"bad field\"}]''\<rparr>"
    by (simp add: example_lib_simps envelope_data_and_bad_field)
  have g2: "Errors \<lparr>Data = Some ''{\"x\":1}'', Errors = Some ''[{\"message\":\"bad field\"}]''\<rparr>
              = Some ''[{\"message\":\"bad field\"}]''"
    by simp
  have g4: "json_Unmarshal_GqlErrorList example_lib body_data_and_bad_field =
              Inr [Some \<lparr>gqlerror_Message = ''bad field''\<rparr>]"
    by (simp add: example_lib_simps errors_data_and_bad_field)
  show ?thesis
    using parseResponse_errors_discard_data[OF h1 h2 h3 h4, of 200 "\<lparr>field_x = 0\<rparr>"]
      parseResponse_errors_discard_data[OF g1 g2 h3 g4, of 200 "\<lparr>field_x = 0\<rparr>"]
    by (simp add: prod_eq_iff envelope_data_and_bad_field data_x_1)
qed

section \<open>Properties of the request builder\<close>

lemma apply_options_append:
  "apply_options (first @ second) req = apply_options second (apply_options first req)"
  by (induction first arbitrary: req) simp_all

lemma apply_options_foldl: "apply_options options req = foldl (\<lambda>r option. option r) req options"
  by (induction options arbitrary: req) simp_all

text \<open>
  Claim C8: on every call that gets as far as the built request, the request returned is
  the built one with the construction-time options applied first and the per-call
  options after them, each list from its first option to its last, every option on the
  request its predecessors left.
\<close>

theorem newRequest_applies_options_in_order:
  assumes "json_Marshal lib \<lparr>Query = query, Variables = removeNils vars, OperationName = []\<rparr>
             = Inr requestBody"
    and "http_NewRequestWithContext lib ''POST'' (BaseURL c) requestBody = Inr req"
  shows "newRequest lib c query vars httpRequestOptions =
           Inr (foldl (\<lambda>r option. option r) req (HTTPRequestOptions c @ httpRequestOptions))"
  using assms by (simp add: newRequest_def apply_options_foldl)

theorem newRequest_applies_options_in_order_witness:
  "map_sum id (\<lambda>req. Header req ''X-Trace'')
     (newRequest example_lib
        \<lparr>Client_Do = (\<lambda>req. Inl ''no transport''),
         BaseURL = ''http://localhost/query'',
         HTTPRequestOptions = [Header_Set ''X-Trace'' ''constructed 1'',
                               Header_Add ''X-Trace'' ''constructed 2'']\<rparr>
        ''query{x}'' None
        [Header_Add ''X-Trace'' ''call 1'', Header_Add ''X-Trace'' ''call 2''])
   = Inr (Some [''constructed 1'', ''constructed 2'', ''call 1'', ''call 2''])"
proof -
  have h1: "json_Marshal example_lib \<lparr>Query = ''query{x}'', Variables = removeNils None, OperationName = []\<rparr>
              = Inr ''{\"query\":\"query{x}\"}''"
    by (simp add: example_lib_simps example_Marshal_def)
  have h2: "http_NewRequestWithContext example_lib ''POST''
              (BaseURL \<lparr>Client_Do = (\<lambda>req. Inl ''no transport''),
                 BaseURL = ''http://localhost/query'',
                 HTTPRequestOptions = [Header_Set ''X-Trace'' ''constructed 1'',
                                       Header_Add ''X-Trace'' ''constructed 2'']\<rparr>)
              ''{\"query\":\"query{x}\"}''
              = Inr \<lparr>Method = ''POST'', URL = ''http://localhost/query'', Header = Map.empty,
                     Body = ''{\"query\":\"query{x}\"}''\<rparr>"
    by (simp add: example_lib_simps example_NewRequest_def)
  show ?thesis
    using newRequest_applies_options_in_order[OF h1 h2,
        of "[Header_Add ''X-Trace'' ''call 1'', Header_Add ''X-Trace'' ''call 2'']"]
    by (simp add: Header_Set_def Header_Add_def)
qed


end
